theory Spec2Isabelle
  imports Complex_Main "HOL-Library.Sublist" "HOL-Library.Word"
begin

section \<open>JavaScript values used by the route handlers\<close>

text \<open>
  The two route handlers receive untyped data: the body of the POST request is
  whatever \<^verbatim>\<open>request.json()\<close> parses, and values that reach a \<^verbatim>\<open>catch\<close>
  clause are arbitrary. Only the shape that the handlers inspect is modelled.

  A JavaScript number is an IEEE double. The handlers copy numbers and test them for
  truthiness, nothing else, so a number is embedded as the rational it denotes
  (\<open>+0\<close> and \<open>-0\<close> are both \<open>0\<close>; \<open>NaN\<close> cannot come out of a JSON document).
  An object is the list of its own properties, one entry per key.
\<close>

type_synonym js_number = rat

datatype js_value =
    Undefined
  | Null
  | Bool bool
  | Num js_number
  | Str string
  | Arr "js_value list"
  | Obj "(string \<times> js_value) list"

text \<open>The coercion behind \<^verbatim>\<open>!v\<close> and \<^verbatim>\<open>a || b\<close> (ToBoolean).\<close>

fun truthy :: "js_value \<Rightarrow> bool" where
  "truthy Undefined = False"
| "truthy Null = False"
| "truthy (Bool b) = b"
| "truthy (Num n) = (n \<noteq> 0)"
| "truthy (Str s) = (s \<noteq> [])"
| "truthy (Arr _) = True"
| "truthy (Obj _) = True"

text \<open>
  A thrown value: an instance of \<^verbatim>\<open>Error\<close> with its \<^verbatim>\<open>message\<close>, or anything else.
  \<^verbatim>\<open>error instanceof Error\<close> is the test on the constructor.
\<close>

datatype thrown = ErrorObj string | NonError js_value

section \<open>The metadata route: \<^verbatim>\<open>app/api/video-info/route.ts\<close>\<close>

subsection \<open>Data\<close>

text \<open>
  \<^verbatim>\<open>interface Format\<close> has the seven fields of the page's \<^verbatim>\<open>interface VideoFormat\<close>
  followed by the two codec fields, so it is the record extension of it. The optional
  fields (\<^verbatim>\<open>fps?\<close>, \<^verbatim>\<open>filesize?\<close>, \<^verbatim>\<open>filesize_approx?\<close>) are options.
\<close>

record VideoFormat =
  format_id :: string
  format_note :: string
  ext :: string
  resolution :: string
  fps :: "js_number option"
  filesize :: "js_number option"
  filesize_approx :: "js_number option"

record Format = VideoFormat +
  vcodec :: string
  acodec :: string

text \<open>
  \<^verbatim>\<open>interface VideoInfo\<close> (formats with codecs) and the page's \<^verbatim>\<open>interface VideoDetails\<close>
  (formats without) differ in the element type of \<^verbatim>\<open>formats\<close> only.
\<close>

record 'fmt VideoInfo =
  id' :: string
  title :: string
  thumbnail :: string
  formats :: "'fmt list"

type_synonym VideoDetails = "VideoFormat VideoInfo"

subsection \<open>\<^verbatim>\<open>String.prototype.includes\<close>\<close>

text \<open>
  \<^verbatim>\<open>s.includes(t)\<close>: does \<open>t\<close> occur in \<open>s\<close> as a contiguous run, starting anywhere?
  The search strings of the route are ASCII, for which the answer is the same on
  UTF-16 code units and on bytes.
\<close>

fun str_includes :: "string \<Rightarrow> string \<Rightarrow> bool" where
  "str_includes [] t = (t = [])"
| "str_includes (c # cs) t = (prefix t (c # cs) \<or> str_includes cs t)"

subsection \<open>The filter and the projection (lines 46 to 64)\<close>

definition keep :: "Format \<Rightarrow> bool" where
  "keep f \<longleftrightarrow>
     (vcodec f \<noteq> ''none'' \<and> acodec f \<noteq> ''none'') \<or>
     (vcodec f \<noteq> ''none'' \<and>
      acodec f = ''none'' \<and>
      (str_includes (resolution f) ''1920x1080'' \<or>
       str_includes (resolution f) ''2560x1440'' \<or>
       str_includes (resolution f) ''3840x2160''))"

definition project :: "Format \<Rightarrow> VideoFormat" where
  "project f =
     \<lparr> format_id = format_id f,
       format_note = format_note f,
       ext = ext f,
       resolution = resolution f,
       fps = fps f,
       filesize = filesize f,
       filesize_approx = filesize_approx f \<rparr>"

definition filteredFormats :: "Format list \<Rightarrow> VideoFormat list" where
  "filteredFormats fs = map project (filter keep fs)"

subsection \<open>The handler\<close>

text \<open>
  An HTTP response: status, headers as they are set, and the body. What one call of a
  handler does is its response, the arguments of every invocation of the external tool
  in order, and what went to \<^verbatim>\<open>console.error\<close>.
\<close>

record 'b http_response =
  status :: nat
  headers :: "(string \<times> string) list"
  body :: 'b

record ('b, 'c) handled =
  response :: "'b http_response"
  tool_calls :: "'c list"
  logged :: "thrown list"

text \<open>
  The value that \<^verbatim>\<open>NextResponse.json\<close> serialises is either \<^verbatim>\<open>{ error: msg }\<close> or
  the descriptor; the helper sets the content type.
\<close>

datatype json_body = ErrorBody string | InfoBody VideoDetails

definition NextResponse_json :: "json_body \<Rightarrow> nat \<Rightarrow> json_body http_response" where
  "NextResponse_json b st =
     \<lparr> status = st, headers = [(''content-type'', ''application/json'')], body = b \<rparr>"

text \<open>
  \<^verbatim>\<open>const { url } = v\<close>: destructuring \<^verbatim>\<open>null\<close> or \<^verbatim>\<open>undefined\<close> throws a
  \<^verbatim>\<open>TypeError\<close> (the message is the engine's); any other value is coerced to an object
  and its property read, which is \<^verbatim>\<open>undefined\<close> unless an object of the document
  carries the key.
\<close>

definition destructure_message :: string where
  "destructure_message = ''Cannot destructure property url as it is null.''"

fun destructure_url :: "js_value \<Rightarrow> thrown + js_value" where
  "destructure_url Undefined = Inl (ErrorObj destructure_message)"
| "destructure_url Null = Inl (ErrorObj destructure_message)"
| "destructure_url (Obj kvs) =
     (case map_of kvs ''url'' of None \<Rightarrow> Inr Undefined | Some v \<Rightarrow> Inr v)"
| "destructure_url _ = Inr Undefined"

definition fallback_message :: string where
  "fallback_message =
     ''Failed to fetch video details. The video may be private, age-restricted, or the URL is invalid.''"

text \<open>The \<^verbatim>\<open>catch\<close> clause (lines 73 to 85), given the tool calls made before the throw.\<close>

definition post_catch :: "thrown \<Rightarrow> js_value list \<Rightarrow> (json_body, js_value) handled" where
  "post_catch e calls =
     \<lparr> response =
         NextResponse_json
           (ErrorBody (case e of ErrorObj m \<Rightarrow> m | NonError _ \<Rightarrow> fallback_message)) 500,
       tool_calls = calls,
       logged = [e] \<rparr>"

text \<open>
  The handler. Its two inputs from outside are the outcome of \<^verbatim>\<open>await request.json()\<close>
  (a thrown value when the body is not a JSON document) and the external tool
  \<^verbatim>\<open>ytDlp\<close>, which for a url either throws or yields the parsed description, taken
  at its declared type \<^verbatim>\<open>VideoInfo\<close>. Everything from the parsing of the body on is
  inside the \<^verbatim>\<open>try\<close> block.
\<close>

definition POST ::
  "(js_value \<Rightarrow> thrown + Format VideoInfo) \<Rightarrow> thrown + js_value
     \<Rightarrow> (json_body, js_value) handled" where
  "POST ytDlp parsed =
     (case parsed of
        Inl e \<Rightarrow> post_catch e []
      | Inr v \<Rightarrow>
          (case destructure_url v of
             Inl e \<Rightarrow> post_catch e []
           | Inr url \<Rightarrow>
               if \<not> truthy url then
                 \<lparr> response = NextResponse_json (ErrorBody ''URL is required'') 400,
                   tool_calls = [],
                   logged = [] \<rparr>
               else
                 (case ytDlp url of
                    Inl e \<Rightarrow> post_catch e [url]
                  | Inr videoInfo \<Rightarrow>
                      \<lparr> response =
                          NextResponse_json
                            (InfoBody
                               \<lparr> id' = id' videoInfo,
                                 title = title videoInfo,
                                 thumbnail = thumbnail videoInfo,
                                 formats = filteredFormats (formats videoInfo) \<rparr>)
                            200,
                        tool_calls = [url],
                        logged = [] \<rparr>)))"

section \<open>The page: \<^verbatim>\<open>app/page.tsx\<close>\<close>

text \<open>
  The table of the page lists \<^verbatim>\<open>videoDetails.formats.filter((f) => f.filesize ||
  f.filesize_approx)\<close> (lines 195 and 196): a format is listed when one of its two sizes
  is a number other than zero.
\<close>

definition js_of_number :: "js_number option \<Rightarrow> js_value" where
  "js_of_number x = (case x of None \<Rightarrow> Undefined | Some n \<Rightarrow> Num n)"

definition has_size :: "VideoFormat \<Rightarrow> bool" where
  "has_size f \<longleftrightarrow> truthy (js_of_number (filesize f)) \<or> truthy (js_of_number (filesize_approx f))"

definition listed :: "VideoDetails \<Rightarrow> VideoFormat list" where
  "listed videoDetails = filter has_size (formats videoDetails)"

section \<open>The download route: \<^verbatim>\<open>app/api/download/route.ts\<close>\<close>

subsection \<open>The stream handed to the response\<close>

text \<open>
  A chunk is a \<^verbatim>\<open>Buffer\<close>: a sequence of bytes.

  One download is a session: the \<^verbatim>\<open>ReadableStream\<close> built by the handler (its state,
  its close request, its queue of chunks not yet read), the chunks its reader, the HTTP
  response, has taken out so far, and the external process (whether the listeners are
  registered on its standard output, whether it has been killed, whether its output
  channel has been destroyed). Exceptions thrown out of an event listener are recorded
  in \<open>uncaught\<close>, the messages written by \<^verbatim>\<open>console.error\<close> in \<open>reported\<close>.
\<close>

type_synonym chunk = "8 word list"

datatype rs_state = Readable | Closed | Errored thrown

record session =
  rs :: rs_state
  close_requested :: bool
  queue :: "chunk list"
  delivered :: "chunk list"
  listening :: bool
  process_killed :: bool
  stdout_destroyed :: bool
  uncaught :: "thrown list"
  reported :: "string list"

definition fresh :: session where
  "fresh =
     \<lparr> rs = Readable, close_requested = False, queue = [], delivered = [],
       listening = False, process_killed = False, stdout_destroyed = False,
       uncaught = [], reported = [] \<rparr>"

text \<open>
  The three controller methods the route calls, after the Streams standard:
  \<^verbatim>\<open>enqueue\<close> and \<^verbatim>\<open>close\<close> throw a \<^verbatim>\<open>TypeError\<close> unless the stream is readable
  with no close requested; \<^verbatim>\<open>close\<close> closes at once when the queue is empty and
  otherwise when the last chunk is read; \<^verbatim>\<open>error\<close> drops the queue, and does nothing
  on a stream that is not readable.
\<close>

definition invalid_state :: thrown where
  "invalid_state = ErrorObj ''Invalid state: Controller is already closed''"

definition can_close_or_enqueue :: "session \<Rightarrow> bool" where
  "can_close_or_enqueue s \<longleftrightarrow> \<not> close_requested s \<and> rs s = Readable"

definition controller_enqueue :: "chunk \<Rightarrow> session \<Rightarrow> thrown + session" where
  "controller_enqueue c s =
     (if can_close_or_enqueue s then Inr (s\<lparr>queue := queue s @ [c]\<rparr>)
      else Inl invalid_state)"

definition controller_close :: "session \<Rightarrow> thrown + session" where
  "controller_close s =
     (if can_close_or_enqueue s then
        Inr (if queue s = [] then s\<lparr>close_requested := True, rs := Closed\<rparr>
             else s\<lparr>close_requested := True\<rparr>)
      else Inl invalid_state)"

definition controller_error :: "thrown \<Rightarrow> session \<Rightarrow> session" where
  "controller_error e s =
     (if rs s = Readable then s\<lparr>queue := [], rs := Errored e\<rparr> else s)"

text \<open>
  The reader's side: a read takes the oldest queued chunk (and closes the stream when a
  close was requested and that chunk was the last); on an empty queue it waits, which
  changes nothing. Cancelling a readable stream closes it, drops its queue and runs the
  \<^verbatim>\<open>cancel\<close> method of the underlying source when the source has one.
\<close>

definition rs_read :: "session \<Rightarrow> session" where
  "rs_read s =
     (case queue s of
        [] \<Rightarrow> s
      | c # q \<Rightarrow>
          if rs s \<noteq> Readable then s
          else if close_requested s \<and> q = [] then
            s\<lparr>queue := q, delivered := delivered s @ [c], rs := Closed\<rparr>
          else s\<lparr>queue := q, delivered := delivered s @ [c]\<rparr>)"

definition rs_cancel :: "(session \<Rightarrow> session) option \<Rightarrow> session \<Rightarrow> session" where
  "rs_cancel source_cancel s =
     (if rs s \<noteq> Readable then s
      else (case source_cancel of
              None \<Rightarrow> s\<lparr>rs := Closed, queue := []\<rparr>
            | Some cancel \<Rightarrow> cancel (s\<lparr>rs := Closed, queue := []\<rparr>)))"

subsection \<open>The underlying source of the route (lines 41 to 63)\<close>

text \<open>
  \<^verbatim>\<open>downloadStream.stdout\<close> is a readable channel or \<^verbatim>\<open>null\<close>. The channel emits
  \<^verbatim>\<open>data\<close>, \<^verbatim>\<open>end\<close> and \<^verbatim>\<open>error\<close> events.
\<close>

record subprocess =
  stdout_present :: bool

datatype stdout_event = Data chunk | End | Error string

definition start :: "subprocess \<Rightarrow> session \<Rightarrow> session" where
  "start downloadStream s =
     (if \<not> stdout_present downloadStream then
        controller_error (NonError (Str ''Failed to get download stream.'')) s
      else s\<lparr>listening := True\<rparr>)"

text \<open>The three listeners registered by \<^verbatim>\<open>start\<close>.\<close>

fun listener :: "stdout_event \<Rightarrow> session \<Rightarrow> thrown + session" where
  "listener (Data c) s = controller_enqueue c s"
| "listener End s = controller_close s"
| "listener (Error err) s =
     Inr (controller_error (ErrorObj err) (s\<lparr>reported := reported s @ [err]\<rparr>))"

text \<open>
  The object passed to \<^verbatim>\<open>new ReadableStream\<close> has a \<^verbatim>\<open>start\<close> method and no other:
  in particular no \<^verbatim>\<open>cancel\<close>.
\<close>

definition source_cancel :: "(session \<Rightarrow> session) option" where
  "source_cancel = None"

definition new_ReadableStream :: "subprocess \<Rightarrow> session" where
  "new_ReadableStream downloadStream = start downloadStream fresh"

subsection \<open>What happens to a session after the handler has returned\<close>

text \<open>
  An event of the output channel runs its listener when the listeners are registered and
  the channel has not been destroyed; an exception of the listener leaves the stream as
  it was. The reader reads, or the client goes away and the stream is cancelled.
\<close>

datatype action = Stdout stdout_event | Read | Cancel

definition emit :: "stdout_event \<Rightarrow> session \<Rightarrow> session" where
  "emit ev s =
     (if listening s \<and> \<not> stdout_destroyed s then
        (case listener ev s of
           Inl e \<Rightarrow> s\<lparr>uncaught := uncaught s @ [e]\<rparr>
         | Inr s' \<Rightarrow> s')
      else s)"

fun step :: "action \<Rightarrow> session \<Rightarrow> session" where
  "step (Stdout ev) s = emit ev s"
| "step Read s = rs_read s"
| "step Cancel s = rs_cancel source_cancel s"

fun run :: "action list \<Rightarrow> session \<Rightarrow> session" where
  "run [] s = s"
| "run (a # as) s = run as (step a s)"

text \<open>The events of the output channel in a schedule, in order.\<close>

fun stdout_events :: "action list \<Rightarrow> stdout_event list" where
  "stdout_events [] = []"
| "stdout_events (Stdout ev # as) = ev # stdout_events as"
| "stdout_events (_ # as) = stdout_events as"

subsection \<open>The handler\<close>

record exec_opts =
  format :: string
  output' :: string
  noWarnings :: bool
  noCheckCertificates :: bool
  preferFreeFormats :: bool
  youtubeSkipDashManifest :: bool

datatype download_body = JsonError string | Stream session

text \<open>The options of the call at lines 27 to 38.\<close>

definition download_opts :: "string \<Rightarrow> exec_opts" where
  "download_opts formatId =
     \<lparr> format = formatId @ ''+ba'',
       output' = ''-'',
       noWarnings = True,
       noCheckCertificates = True,
       preferFreeFormats = True,
       youtubeSkipDashManifest = True \<rparr>"

definition bad_request :: "(download_body, string \<times> exec_opts) handled" where
  "bad_request =
     \<lparr> response =
         \<lparr> status = 400,
           headers = [(''Content-Type'', ''application/json'')],
           body = JsonError ''URL and Format ID are required'' \<rparr>,
       tool_calls = [],
       logged = [] \<rparr>"

text \<open>The \<^verbatim>\<open>catch\<close> clause (lines 71 to 83).\<close>

definition get_catch ::
  "thrown \<Rightarrow> (string \<times> exec_opts) list \<Rightarrow> (download_body, string \<times> exec_opts) handled" where
  "get_catch e calls =
     \<lparr> response =
         \<lparr> status = 500,
           headers = [(''Content-Type'', ''application/json'')],
           body = JsonError
             (case e of ErrorObj m \<Rightarrow> m | NonError _ \<Rightarrow> ''Failed to start download.'') \<rparr>,
       tool_calls = calls,
       logged = [e] \<rparr>"

text \<open>The headers of the download (lines 66 to 68).\<close>

definition download_headers :: "(string \<times> string) list" where
  \<open>download_headers =
     [(''Content-Type'', ''video/mp4''),
      (''Content-Disposition'', ''attachment; filename="video.mp4"'')]\<close>

text \<open>
  The handler. \<^verbatim>\<open>searchParams.get\<close> gives a string or \<^verbatim>\<open>null\<close>, and \<^verbatim>\<open>!p\<close> holds
  of \<^verbatim>\<open>null\<close> and of the empty string. \<^verbatim>\<open>youtubedl.exec\<close> is the outside world: it
  throws or gives the handle of the spawned process. A response built without a status
  has status 200.
\<close>

definition GET ::
  "(string \<Rightarrow> exec_opts \<Rightarrow> thrown + subprocess) \<Rightarrow> string option \<Rightarrow> string option
     \<Rightarrow> (download_body, string \<times> exec_opts) handled" where
  "GET exec url formatId =
     (case (url, formatId) of
        (Some u, Some f) \<Rightarrow>
          if u = [] \<or> f = [] then bad_request
          else
            (case exec u (download_opts f) of
               Inl e \<Rightarrow> get_catch e [(u, download_opts f)]
             | Inr downloadStream \<Rightarrow>
                 \<lparr> response =
                     \<lparr> status = 200,
                       headers = download_headers,
                       body = Stream (new_ReadableStream downloadStream) \<rparr>,
                   tool_calls = [(u, download_opts f)],
                   logged = [] \<rparr>)
      | _ \<Rightarrow> bad_request)"

subsection \<open>Phases of a session\<close>

text \<open>
  A session is \<open>flowing\<close> while the listeners are registered and the stream is readable
  with no close requested; it is \<open>draining\<close> once \<^verbatim>\<open>close\<close> has been called, until
  the reader has taken the last queued chunk.
\<close>

definition flowing :: "session \<Rightarrow> bool" where
  "flowing s \<longleftrightarrow>
     listening s \<and> \<not> stdout_destroyed s \<and> rs s = Readable \<and> \<not> close_requested s"

definition draining :: "session \<Rightarrow> bool" where
  "draining s \<longleftrightarrow>
     close_requested s \<and> (if queue s = [] then rs s = Closed else rs s = Readable)"

text \<open>
  For comparison only, the tear-down that cancellation would need: the process killed
  and its output channel destroyed. Nothing in the route does this.
\<close>

definition teardown :: "session \<Rightarrow> session" where
  "teardown s = s\<lparr>process_killed := True, stdout_destroyed := True\<rparr>"

section \<open>The inclusion policy in the words of the specification\<close>

definition has_video :: "Format \<Rightarrow> bool" where
  "has_video f \<longleftrightarrow> vcodec f \<noteq> ''none''"

definition has_audio :: "Format \<Rightarrow> bool" where
  "has_audio f \<longleftrightarrow> acodec f \<noteq> ''none''"

definition high_res :: "string list" where
  "high_res = [''1920x1080'', ''2560x1440'', ''3840x2160'']"

text \<open>Combined, or video-only with a resolution tag that is exactly one of the three.\<close>

definition policy_exact :: "Format \<Rightarrow> bool" where
  "policy_exact f \<longleftrightarrow>
     (has_video f \<and> has_audio f) \<or>
     (has_video f \<and> \<not> has_audio f \<and> resolution f \<in> set high_res)"

text \<open>Combined, or video-only with a resolution tag in which one of the three occurs.\<close>

definition policy_within :: "Format \<Rightarrow> bool" where
  "policy_within f \<longleftrightarrow>
     (has_video f \<and> has_audio f) \<or>
     (has_video f \<and> \<not> has_audio f \<and> (\<exists>r \<in> set high_res. sublist r (resolution f)))"

section \<open>Sample inputs\<close>

definition combined_360 :: Format where
  "combined_360 =
     \<lparr> format_id = ''18'', format_note = ''360p'', ext = ''mp4'', resolution = ''640x360'',
       fps = Some 30, filesize = Some 1048576, filesize_approx = None,
       vcodec = ''avc1.42001E'', acodec = ''mp4a.40.2'' \<rparr>"

definition video_1080 :: Format where
  "video_1080 =
     \<lparr> format_id = ''137'', format_note = ''1080p'', ext = ''mp4'', resolution = ''1920x1080'',
       fps = Some 30, filesize = None, filesize_approx = None,
       vcodec = ''avc1.640028'', acodec = ''none'' \<rparr>"

definition video_720 :: Format where
  "video_720 =
     \<lparr> format_id = ''136'', format_note = ''720p'', ext = ''mp4'', resolution = ''1280x720'',
       fps = Some 30, filesize = Some 7340032, filesize_approx = None,
       vcodec = ''avc1.4d401f'', acodec = ''none'' \<rparr>"

definition audio_only :: Format where
  "audio_only =
     \<lparr> format_id = ''140'', format_note = ''medium'', ext = ''m4a'', resolution = ''audio only'',
       fps = None, filesize = Some 524288, filesize_approx = None,
       vcodec = ''none'', acodec = ''mp4a.40.2'' \<rparr>"

definition video_1080_tagged :: Format where
  "video_1080_tagged =
     \<lparr> format_id = ''699'', format_note = ''1080p60 HDR'', ext = ''mp4'',
       resolution = ''1920x1080 HDR'',
       fps = Some 60, filesize = None, filesize_approx = Some 99000000,
       vcodec = ''av01.0.09M.10'', acodec = ''none'' \<rparr>"

definition sample_info :: "Format VideoInfo" where
  "sample_info =
     \<lparr> id' = ''abc123'', title = ''A sample'', thumbnail = ''https://i.example/abc123.jpg'',
       formats = [audio_only, combined_360, video_720, video_1080] \<rparr>"

definition sample_url :: js_value where
  "sample_url = Str ''https://youtu.be/abc123''"

definition sample_tool :: "js_value \<Rightarrow> thrown + Format VideoInfo" where
  "sample_tool url =
     (if url = sample_url then Inr sample_info
      else if url = Str ''https://youtu.be/private'' then Inl (ErrorObj ''ERROR: Private video'')
      else Inl (NonError (Num 1)))"

definition live_process :: subprocess where
  "live_process = \<lparr> stdout_present = True \<rparr>"

definition mute_process :: subprocess where
  "mute_process = \<lparr> stdout_present = False \<rparr>"

definition live_exec :: "string \<Rightarrow> exec_opts \<Rightarrow> thrown + subprocess" where
  "live_exec u opts = Inr live_process"

definition mute_exec :: "string \<Rightarrow> exec_opts \<Rightarrow> thrown + subprocess" where
  "mute_exec u opts = Inr mute_process"

definition failing_exec :: "string \<Rightarrow> exec_opts \<Rightarrow> thrown + subprocess" where
  "failing_exec u opts = Inl (ErrorObj ''spawn /usr/local/bin/yt-dlp ENOENT'')"

definition two_chunks :: "chunk list" where
  "two_chunks = [[0, 0, 0, 24], [102, 116, 121, 112]]"

definition complete_download :: "action list" where
  "complete_download =
     [Stdout (Data [0, 0, 0, 24]), Read, Read, Stdout (Data [102, 116, 121, 112]), Stdout End]"

definition early_disconnect :: "action list" where
  "early_disconnect =
     [Stdout (Data [0, 0, 0, 24]), Read, Stdout (Data [102, 116, 121, 112]), Cancel,
      Stdout (Data [105, 115, 111, 109])]"

section \<open>Properties of the metadata route\<close>

lemma str_includes_sublist: "str_includes s t \<longleftrightarrow> sublist t s"
  by (induction s) (auto simp: sublist_Cons_right)

lemma keep_policy_within: "keep f \<longleftrightarrow> policy_within f"
  by (auto simp: keep_def policy_within_def has_video_def has_audio_def high_res_def
      str_includes_sublist)

lemmas sample_defs = combined_360_def video_1080_def video_720_def audio_only_def
  video_1080_tagged_def sample_info_def

subsection \<open>Which encodings the resolver returns\<close>

text \<open>
  A video-only record whose resolution tag is \<open>1920x1080 HDR\<close> is returned, although the
  tag is none of the three allowlisted ones: the test of the route is
  \<^verbatim>\<open>resolution.includes(...)\<close>, an occurrence anywhere in the tag, not equality.
\<close>

theorem inclusion_policy_counterexample:
  "filteredFormats [video_1080_tagged] = [project video_1080_tagged] \<and>
   \<not> policy_exact video_1080_tagged"
  by (simp add: filteredFormats_def keep_def policy_exact_def has_video_def has_audio_def
      high_res_def video_1080_tagged_def)

text \<open>
  Claim C1, as the code has it: the returned list is the projection, in order, of exactly
  the records that are combined (video codec and audio codec both other than \<open>none\<close>) or
  video-only (audio codec \<open>none\<close>) with a resolution tag in which one of \<open>1920x1080\<close>,
  \<open>2560x1440\<close>, \<open>3840x2160\<close> occurs. Audio-only records and the other video-only
  records are left out; a record whose tag is exactly one of the three is returned.
\<close>

theorem inclusion_policy:
  "filteredFormats fs = map project (filter policy_within fs) \<and>
   (\<forall>f \<in> set fs. policy_within f \<longrightarrow> project f \<in> set (filteredFormats fs)) \<and>
   (\<forall>f \<in> set fs. policy_exact f \<longrightarrow> project f \<in> set (filteredFormats fs)) \<and>
   length (filteredFormats fs) = length (filter policy_within fs)"
proof -
  have k: "keep = policy_within"
    by (rule ext) (rule keep_policy_within)
  have "policy_within f" if "policy_exact f" for f
    using that by (auto simp: policy_exact_def policy_within_def)
  then show ?thesis
    by (auto simp: filteredFormats_def k)
qed

theorem inclusion_policy_witness:
  "filteredFormats [audio_only, combined_360, video_720, video_1080, video_1080_tagged] =
     [project combined_360, project video_1080, project video_1080_tagged] \<and>
   policy_within combined_360 \<and> policy_within video_1080 \<and> policy_within video_1080_tagged \<and>
   \<not> policy_within audio_only \<and> \<not> policy_within video_720"
proof -
  have "policy_within combined_360" "policy_within video_1080" "policy_within video_1080_tagged"
    "\<not> policy_within audio_only" "\<not> policy_within video_720"
    unfolding keep_policy_within [symmetric]
    by (simp_all add: keep_def sample_defs)
  with inclusion_policy [of "[audio_only, combined_360, video_720, video_1080, video_1080_tagged]"]
  show ?thesis by simp
qed

text \<open>
  Claim C10: the decision of the filter is a function of the two codec fields and the
  resolution tag. Two records that agree on the three are both returned or both left out,
  whatever their identifier, note, extension, frame rate and sizes.
\<close>

theorem filter_ignores_other_fields:
  "vcodec f = vcodec g \<Longrightarrow> acodec f = acodec g \<Longrightarrow> resolution f = resolution g \<Longrightarrow>
     keep f = keep g \<and>
     (project f \<in> set (filteredFormats [f]) \<longleftrightarrow> project g \<in> set (filteredFormats [g]))"
  by (simp add: keep_def filteredFormats_def)

theorem filter_ignores_other_fields_witness:
  "vcodec video_1080 = vcodec (video_1080\<lparr>format_id := ''x'', format_note := ''y'',
      ext := ''webm'', fps := None, filesize := Some 5, filesize_approx := Some 6\<rparr>) \<and>
   keep video_1080 = keep (video_1080\<lparr>format_id := ''x'', format_note := ''y'',
      ext := ''webm'', fps := None, filesize := Some 5, filesize_approx := Some 6\<rparr>)"
  using filter_ignores_other_fields [of video_1080 "video_1080\<lparr>format_id := ''x'', format_note := ''y'',
      ext := ''webm'', fps := None, filesize := Some 5, filesize_approx := Some 6\<rparr>"]
  by simp

text \<open>
  Claim C4: the filter does not look at the size fields, so changing them changes no
  decision, and a record that passes it with both sizes absent is in the returned list,
  still without sizes. Only the table of the page leaves such a record out.
\<close>

theorem sizeless_kept:
  "keep (f\<lparr>filesize := a, filesize_approx := b\<rparr>) = keep f \<and>
   (f \<in> set fs \<and> keep f \<and> filesize f = None \<and> filesize_approx f = None \<longrightarrow>
      project f \<in> set (filteredFormats fs) \<and>
      filesize (project f) = None \<and> filesize_approx (project f) = None \<and>
      project f \<notin> set (listed \<lparr> id' = i, title = t, thumbnail = th,
                                  formats = filteredFormats fs \<rparr>))"
  by (auto simp: keep_def filteredFormats_def project_def listed_def has_size_def js_of_number_def)

theorem sizeless_kept_witness:
  "video_1080 \<in> set (formats sample_info) \<and> keep video_1080 \<and>
   filesize video_1080 = None \<and> filesize_approx video_1080 = None \<and>
   project video_1080 \<in> set (filteredFormats (formats sample_info)) \<and>
   project video_1080 \<notin>
     set (listed \<lparr> id' = ''abc123'', title = ''A sample'', thumbnail = [],
                    formats = filteredFormats (formats sample_info) \<rparr>)"
proof -
  have h: "video_1080 \<in> set (formats sample_info)" "keep video_1080"
    "filesize video_1080 = None" "filesize_approx video_1080 = None"
    by (simp_all add: sample_defs keep_def)
  with sizeless_kept [where f = video_1080 and a = None and b = None
      and fs = "formats sample_info" and i = "''abc123''" and t = "''A sample''" and th = "[]"]
  show ?thesis by simp
qed

subsection \<open>The descriptor\<close>

lemma post_success:
  "destructure_url v = Inr url \<Longrightarrow> truthy url \<Longrightarrow> ytDlp url = Inr info \<Longrightarrow>
     POST ytDlp (Inr v) =
       \<lparr> response =
           NextResponse_json
             (InfoBody \<lparr> id' = id' info, title = title info, thumbnail = thumbnail info,
                         formats = filteredFormats (formats info) \<rparr>) 200,
         tool_calls = [url], logged = [] \<rparr>"
  by (simp add: POST_def)

text \<open>
  Claim C9: when the url is accepted and the tool returns, the response is 200 and its
  descriptor has the tool's id, title and thumbnail; its encoding list is the projection of
  the surviving records, an order-preserving sublist of the projection of the tool's list;
  and the projection of a record has the record's identifier, note, extension, resolution,
  frame rate and two sizes, and nothing more.
\<close>

theorem descriptor_projection:
  assumes "destructure_url v = Inr url" and "truthy url" and "ytDlp url = Inr info"
  shows
    "status (response (POST ytDlp (Inr v))) = 200 \<and>
     body (response (POST ytDlp (Inr v))) =
       InfoBody \<lparr> id' = id' info, title = title info, thumbnail = thumbnail info,
                   formats = map project (filter keep (formats info)) \<rparr> \<and>
     subseq (map project (filter keep (formats info))) (map project (formats info)) \<and>
     format_id (project f) = format_id f \<and>
     format_note (project f) = format_note f \<and>
     ext (project f) = ext f \<and>
     resolution (project f) = resolution f \<and>
     fps (project f) = fps f \<and>
     filesize (project f) = filesize f \<and>
     filesize_approx (project f) = filesize_approx f \<and>
     VideoFormat.more (project f) = ()"
  using post_success [of v url ytDlp info] assms
  by (simp add: NextResponse_json_def filteredFormats_def project_def subseq_map)

theorem descriptor_projection_witness:
  "destructure_url (Obj [(''url'', sample_url)]) = Inr sample_url \<and> truthy sample_url \<and>
   sample_tool sample_url = Inr sample_info \<and>
   body (response (POST sample_tool (Inr (Obj [(''url'', sample_url)])))) =
     InfoBody \<lparr> id' = ''abc123'', title = ''A sample'',
                 thumbnail = ''https://i.example/abc123.jpg'',
                 formats =
                   [\<lparr> format_id = ''18'', format_note = ''360p'', ext = ''mp4'',
                       resolution = ''640x360'', fps = Some 30, filesize = Some 1048576,
                       filesize_approx = None \<rparr>,
                    \<lparr> format_id = ''137'', format_note = ''1080p'', ext = ''mp4'',
                       resolution = ''1920x1080'', fps = Some 30, filesize = None,
                       filesize_approx = None \<rparr>] \<rparr>"
proof -
  have h: "destructure_url (Obj [(''url'', sample_url)]) = Inr sample_url"
    "truthy sample_url" "sample_tool sample_url = Inr sample_info"
    by (simp_all add: sample_url_def sample_tool_def)
  from descriptor_projection [of "Obj [(''url'', sample_url)]" sample_url sample_tool sample_info combined_360] h
  show ?thesis
    by (simp add: sample_defs keep_def project_def)
qed

subsection \<open>Errors of the resolver\<close>

lemma post_status_400:
  "status (response (POST ytDlp parsed)) = 400 \<longleftrightarrow>
     (\<exists>v url. parsed = Inr v \<and> destructure_url v = Inr url \<and> \<not> truthy url)"
  by (auto simp: POST_def post_catch_def NextResponse_json_def split: sum.splits)

lemma post_calls: "length (tool_calls (POST ytDlp parsed)) \<le> 1"
  by (simp add: POST_def post_catch_def split: sum.splits)

text \<open>
  A request without a body has no url, and is answered with 500, not 400:
  \<^verbatim>\<open>request.json()\<close> throws inside the \<^verbatim>\<open>try\<close> block, before the url is looked at.
  The same happens for the body \<^verbatim>\<open>null\<close>. And a url that is the number zero, neither
  missing nor an empty string, is answered with 400.
\<close>

theorem resolve_errors_counterexample:
  "status (response (POST sample_tool (Inl (ErrorObj ''Unexpected end of JSON input'')))) = 500 \<and>
   body (response (POST sample_tool (Inl (ErrorObj ''Unexpected end of JSON input'')))) =
     ErrorBody ''Unexpected end of JSON input'' \<and>
   status (response (POST sample_tool (Inr Null))) = 500 \<and>
   status (response (POST sample_tool (Inr (Obj [(''url'', Num 0)])))) = 400"
  by (simp add: POST_def post_catch_def NextResponse_json_def)

text \<open>
  Claim C8, as the code has it: the answer is 400 exactly when the body parses to a value
  that can be destructured and whose \<open>url\<close> is falsy; for an object whose \<open>url\<close> is absent
  or a string that means absent or empty. The answer to such a request carries the fixed
  message and no tool is run. A body that does not parse or cannot be destructured, and a
  tool that throws, are answered with 500, the error being the message of the thrown value
  when it is an \<^verbatim>\<open>Error\<close> and the fixed fallback otherwise. The tool is invoked at most
  once.
\<close>

theorem resolve_errors:
  "(status (response (POST ytDlp parsed)) = 400 \<longleftrightarrow>
      (\<exists>v url. parsed = Inr v \<and> destructure_url v = Inr url \<and> \<not> truthy url)) \<and>
   (parsed = Inr (Obj kvs) \<and> map_of kvs ''url'' = None \<longrightarrow>
      status (response (POST ytDlp parsed)) = 400) \<and>
   (parsed = Inr (Obj kvs) \<and> map_of kvs ''url'' = Some (Str s) \<longrightarrow>
      (status (response (POST ytDlp parsed)) = 400 \<longleftrightarrow> s = [])) \<and>
   (status (response (POST ytDlp parsed)) = 400 \<longrightarrow>
      body (response (POST ytDlp parsed)) = ErrorBody ''URL is required'' \<and>
      tool_calls (POST ytDlp parsed) = []) \<and>
   (parsed = Inl e \<or> parsed = Inr v \<and> destructure_url v = Inl e \<longrightarrow>
      response (POST ytDlp parsed) =
        NextResponse_json
          (ErrorBody (case e of ErrorObj m \<Rightarrow> m | NonError _ \<Rightarrow> fallback_message)) 500 \<and>
      tool_calls (POST ytDlp parsed) = []) \<and>
   (parsed = Inr v \<and> destructure_url v = Inr url \<and> truthy url \<and> ytDlp url = Inl e \<longrightarrow>
      response (POST ytDlp parsed) =
        NextResponse_json
          (ErrorBody (case e of ErrorObj m \<Rightarrow> m | NonError _ \<Rightarrow> fallback_message)) 500 \<and>
      tool_calls (POST ytDlp parsed) = [url]) \<and>
   length (tool_calls (POST ytDlp parsed)) \<le> 1"
proof -
  have a: "parsed = Inr (Obj kvs) \<and> map_of kvs ''url'' = None \<longrightarrow>
      status (response (POST ytDlp parsed)) = 400"
    by (simp add: POST_def NextResponse_json_def)
  have b: "parsed = Inr (Obj kvs) \<and> map_of kvs ''url'' = Some (Str s) \<longrightarrow>
      (status (response (POST ytDlp parsed)) = 400 \<longleftrightarrow> s = [])"
    by (simp add: POST_def post_catch_def NextResponse_json_def split: sum.splits)
  have c: "status (response (POST ytDlp parsed)) = 400 \<longrightarrow>
      body (response (POST ytDlp parsed)) = ErrorBody ''URL is required'' \<and>
      tool_calls (POST ytDlp parsed) = []"
    by (simp add: POST_def post_catch_def NextResponse_json_def split: sum.splits)
  have d: "parsed = Inl e \<or> parsed = Inr v \<and> destructure_url v = Inl e \<longrightarrow>
      response (POST ytDlp parsed) =
        NextResponse_json
          (ErrorBody (case e of ErrorObj m \<Rightarrow> m | NonError _ \<Rightarrow> fallback_message)) 500 \<and>
      tool_calls (POST ytDlp parsed) = []"
    by (auto simp: POST_def post_catch_def)
  have e: "parsed = Inr v \<and> destructure_url v = Inr url \<and> truthy url \<and> ytDlp url = Inl e \<longrightarrow>
      response (POST ytDlp parsed) =
        NextResponse_json
          (ErrorBody (case e of ErrorObj m \<Rightarrow> m | NonError _ \<Rightarrow> fallback_message)) 500 \<and>
      tool_calls (POST ytDlp parsed) = [url]"
    by (simp add: POST_def post_catch_def)
  from post_status_400 a b c d e post_calls show ?thesis
    by blast
qed

theorem resolve_errors_witness:
  "status (response (POST sample_tool (Inr (Obj [(''url'', Str '''')])))) = 400 \<and>
   status (response (POST sample_tool (Inr (Obj [])))) = 400 \<and>
   response (POST sample_tool (Inr (Obj [(''url'', Str ''https://youtu.be/private'')]))) =
     NextResponse_json (ErrorBody ''ERROR: Private video'') 500 \<and>
   response (POST sample_tool (Inr (Obj [(''url'', Str ''nonsense'')]))) =
     NextResponse_json (ErrorBody fallback_message) 500"
proof -
  have 1: "status (response (POST sample_tool (Inr (Obj [(''url'', Str '''')])))) = 400"
    using resolve_errors [of sample_tool "Inr (Obj [(''url'', Str '''')])" "[(''url'', Str '''')]" "''''"]
    by simp
  have 2: "status (response (POST sample_tool (Inr (Obj [])))) = 400"
    using resolve_errors [of sample_tool "Inr (Obj [])" "[]"]
    by simp
  have 3: "response (POST sample_tool (Inr (Obj [(''url'', Str ''https://youtu.be/private'')]))) =
     NextResponse_json (ErrorBody ''ERROR: Private video'') 500"
    using resolve_errors [of sample_tool "Inr (Obj [(''url'', Str ''https://youtu.be/private'')])"
        _ _ "ErrorObj ''ERROR: Private video''" "Obj [(''url'', Str ''https://youtu.be/private'')]"
        "Str ''https://youtu.be/private''"]
    by (simp add: sample_tool_def sample_url_def)
  have 4: "response (POST sample_tool (Inr (Obj [(''url'', Str ''nonsense'')]))) =
     NextResponse_json (ErrorBody fallback_message) 500"
    using resolve_errors [of sample_tool "Inr (Obj [(''url'', Str ''nonsense'')])"
        _ _ "NonError (Num 1)" "Obj [(''url'', Str ''nonsense'')]"
        "Str ''nonsense''"]
    by (simp add: sample_tool_def sample_url_def)
  from 1 2 3 4 show ?thesis by simp
qed

section \<open>Properties of the download route\<close>

subsection \<open>The handler\<close>

lemma get_stream:
  "u \<noteq> [] \<Longrightarrow> f \<noteq> [] \<Longrightarrow> exec u (download_opts f) = Inr p \<Longrightarrow>
     GET exec (Some u) (Some f) =
       \<lparr> response =
           \<lparr> status = 200, headers = download_headers,
             body = Stream (new_ReadableStream p) \<rparr>,
         tool_calls = [(u, download_opts f)], logged = [] \<rparr>"
  by (simp add: GET_def)

lemma get_throw:
  "u \<noteq> [] \<Longrightarrow> f \<noteq> [] \<Longrightarrow> exec u (download_opts f) = Inl e \<Longrightarrow>
     GET exec (Some u) (Some f) = get_catch e [(u, download_opts f)]"
  by (simp add: GET_def)

text \<open>
  Claim C7: the answer is 400 exactly when the url parameter or the formatId parameter is
  missing or empty. That answer is the JSON error body with its content type, and the
  external tool has not been invoked.
\<close>

theorem bad_request_iff:
  "(status (response (GET exec url formatId)) = 400 \<longleftrightarrow>
      url = None \<or> url = Some [] \<or> formatId = None \<or> formatId = Some []) \<and>
   (status (response (GET exec url formatId)) = 400 \<longrightarrow>
      GET exec url formatId = bad_request \<and>
      tool_calls (GET exec url formatId) = [] \<and>
      body (response (GET exec url formatId)) = JsonError ''URL and Format ID are required'' \<and>
      headers (response (GET exec url formatId)) = [(''Content-Type'', ''application/json'')])"
  by (auto simp: GET_def bad_request_def get_catch_def split: option.splits sum.splits)

theorem bad_request_iff_witness:
  "status (response (GET live_exec (Some ''https://youtu.be/abc123'') (Some ''''))) = 400 \<and>
   tool_calls (GET live_exec (Some ''https://youtu.be/abc123'') (Some '''')) = [] \<and>
   status (response (GET live_exec None (Some ''137''))) = 400 \<and>
   status (response (GET live_exec (Some ''https://youtu.be/abc123'') (Some ''137''))) \<noteq> 400"
  using bad_request_iff [of live_exec "Some ''https://youtu.be/abc123''" "Some ''''"]
    bad_request_iff [of live_exec None "Some ''137''"]
    bad_request_iff [of live_exec "Some ''https://youtu.be/abc123''" "Some ''137''"]
  by simp

text \<open>
  Claim C6: for a non-empty url and formatId the tool is invoked once, on the url, with
  the format selector made of the formatId as given followed by \<open>+ba\<close>, and with the
  output target \<open>-\<close>.
\<close>

theorem format_selector:
  "u \<noteq> [] \<Longrightarrow> f \<noteq> [] \<Longrightarrow>
     tool_calls (GET exec (Some u) (Some f)) = [(u, download_opts f)] \<and>
     format (download_opts f) = f @ ''+ba'' \<and>
     take (length f) (format (download_opts f)) = f \<and>
     drop (length f) (format (download_opts f)) = ''+ba'' \<and>
     output' (download_opts f) = ''-''"
  by (simp add: GET_def get_catch_def download_opts_def split: sum.splits)

theorem format_selector_witness:
  "''https://youtu.be/abc123'' \<noteq> [] \<and> ''137'' \<noteq> [] \<and>
   map fst (tool_calls (GET failing_exec (Some ''https://youtu.be/abc123'') (Some ''137''))) =
     [''https://youtu.be/abc123''] \<and>
   map (format \<circ> snd) (tool_calls (GET live_exec (Some ''https://youtu.be/abc123'') (Some ''137''))) =
     [''137+ba''] \<and>
   map (output' \<circ> snd) (tool_calls (GET live_exec (Some ''https://youtu.be/abc123'') (Some ''137''))) =
     [''-'']"
  using format_selector [of "''https://youtu.be/abc123''" "''137''" failing_exec]
    format_selector [of "''https://youtu.be/abc123''" "''137''" live_exec]
  by simp

subsection \<open>A process without an output channel\<close>

lemma dead_session:
  "\<not> listening s \<Longrightarrow> rs s \<noteq> Readable \<Longrightarrow> queue s = [] \<Longrightarrow> run acts s = s"
proof (induction acts)
  case Nil
  then show ?case by simp
next
  case (Cons a acts)
  then have "step a s = s"
    by (cases a) (simp_all add: emit_def rs_read_def rs_cancel_def)
  with Cons show ?case by simp
qed

text \<open>
  When the spawned process has no standard output, the answer is not a 500: the handler
  returns status 200 with the headers of a download, and a body that is in error.
\<close>

theorem missing_stdout_counterexample:
  "mute_exec ''https://youtu.be/abc123'' (download_opts ''137'') = Inr mute_process \<and>
   \<not> stdout_present mute_process \<and>
   status (response (GET mute_exec (Some ''https://youtu.be/abc123'') (Some ''137''))) = 200 \<and>
   headers (response (GET mute_exec (Some ''https://youtu.be/abc123'') (Some ''137''))) =
     download_headers"
  by (simp add: GET_def mute_exec_def mute_process_def)

text \<open>
  Claim C2, as the code has it: for a non-empty url and formatId, a spawn call that throws
  is answered with 500 and a JSON error (the message of the thrown \<^verbatim>\<open>Error\<close>, or a
  fixed one). A process whose standard output cannot be obtained is answered with 200
  and the download headers; the body is a stream put in error with the reason
  \<open>Failed to get download stream.\<close>, which delivers no chunk, whatever happens later.
\<close>

theorem start_failures:
  assumes "u \<noteq> []" and "f \<noteq> []"
  shows
    "(exec u (download_opts f) = Inl e \<longrightarrow>
        response (GET exec (Some u) (Some f)) =
          \<lparr> status = 500, headers = [(''Content-Type'', ''application/json'')],
            body = JsonError
              (case e of ErrorObj m \<Rightarrow> m | NonError _ \<Rightarrow> ''Failed to start download.'') \<rparr>) \<and>
     (exec u (download_opts f) = Inr p \<and> \<not> stdout_present p \<longrightarrow>
        response (GET exec (Some u) (Some f)) =
          \<lparr> status = 200, headers = download_headers,
            body = Stream (new_ReadableStream p) \<rparr> \<and>
        rs (new_ReadableStream p) = Errored (NonError (Str ''Failed to get download stream.'')) \<and>
        run acts (new_ReadableStream p) = new_ReadableStream p \<and>
        delivered (new_ReadableStream p) = [])"
proof -
  have a: "response (GET exec (Some u) (Some f)) =
          \<lparr> status = 500, headers = [(''Content-Type'', ''application/json'')],
            body = JsonError
              (case e of ErrorObj m \<Rightarrow> m | NonError _ \<Rightarrow> ''Failed to start download.'') \<rparr>"
    if "exec u (download_opts f) = Inl e"
    using get_throw [of u f exec e] assms that by (simp add: get_catch_def)
  have b: "response (GET exec (Some u) (Some f)) =
          \<lparr> status = 200, headers = download_headers,
            body = Stream (new_ReadableStream p) \<rparr>"
    if "exec u (download_opts f) = Inr p"
    using get_stream [of u f exec p] assms that by simp
  have c: "rs (new_ReadableStream p) = Errored (NonError (Str ''Failed to get download stream.''))
      \<and> \<not> listening (new_ReadableStream p) \<and> queue (new_ReadableStream p) = []
      \<and> delivered (new_ReadableStream p) = []"
    if "\<not> stdout_present p"
    using that by (simp add: new_ReadableStream_def start_def controller_error_def fresh_def)
  have d: "run acts (new_ReadableStream p) = new_ReadableStream p" if "\<not> stdout_present p"
    using c [OF that] by (intro dead_session) simp_all
  from a b c d show ?thesis by blast
qed

theorem start_failures_witness:
  "status (response (GET failing_exec (Some ''https://youtu.be/abc123'') (Some ''137''))) = 500 \<and>
   body (response (GET failing_exec (Some ''https://youtu.be/abc123'') (Some ''137''))) =
     JsonError ''spawn /usr/local/bin/yt-dlp ENOENT'' \<and>
   status (response (GET mute_exec (Some ''https://youtu.be/abc123'') (Some ''137''))) = 200 \<and>
   rs (new_ReadableStream mute_process) =
     Errored (NonError (Str ''Failed to get download stream.'')) \<and>
   delivered (run complete_download (new_ReadableStream mute_process)) = []"
  using start_failures [of "''https://youtu.be/abc123''" "''137''" failing_exec
      "ErrorObj ''spawn /usr/local/bin/yt-dlp ENOENT''"]
    start_failures [of "''https://youtu.be/abc123''" "''137''" mute_exec _ mute_process complete_download]
  by (simp add: failing_exec_def mute_exec_def mute_process_def)

subsection \<open>Cancellation\<close>

lemma step_process:
  "process_killed (step a s) = process_killed s \<and> stdout_destroyed (step a s) = stdout_destroyed s"
proof (cases a)
  case (Stdout ev)
  then show ?thesis
    by (cases ev)
      (simp_all add: emit_def controller_enqueue_def controller_close_def controller_error_def)
next
  case Read
  then show ?thesis
    by (simp add: rs_read_def split: list.splits)
next
  case Cancel
  then show ?thesis
    by (simp add: rs_cancel_def source_cancel_def)
qed

lemma run_process:
  "process_killed (run acts s) = process_killed s \<and>
   stdout_destroyed (run acts s) = stdout_destroyed s"
  by (induction acts arbitrary: s) (simp_all add: step_process)

text \<open>
  The client goes away after the first chunk: the stream is closed, and the process is
  neither killed nor its output channel destroyed; the next chunk still arrives.
\<close>

theorem cancel_counterexample:
  "rs (run early_disconnect (new_ReadableStream live_process)) = Closed \<and>
   \<not> process_killed (run early_disconnect (new_ReadableStream live_process)) \<and>
   \<not> stdout_destroyed (run early_disconnect (new_ReadableStream live_process))"
  by (simp add: early_disconnect_def new_ReadableStream_def live_process_def start_def fresh_def
      emit_def controller_enqueue_def can_close_or_enqueue_def rs_read_def rs_cancel_def
      source_cancel_def)

text \<open>
  Claim C3, as the code has it: cancelling a readable stream closes it and drops its queue.
  The underlying source has no \<^verbatim>\<open>cancel\<close> method, so nothing the route does, on
  cancellation or on any other event, kills the process or destroys its output channel:
  both are, at every moment of a session, as they were when the handler returned.
\<close>

theorem cancel_closes_stream_only:
  "(rs s = Readable \<longrightarrow>
      rs (step Cancel s) = Closed \<and> queue (step Cancel s) = [] \<and>
      delivered (step Cancel s) = delivered s) \<and>
   process_killed (step Cancel s) = process_killed s \<and>
   stdout_destroyed (step Cancel s) = stdout_destroyed s \<and>
   process_killed (run acts s) = process_killed s \<and>
   stdout_destroyed (run acts s) = stdout_destroyed s \<and>
   \<not> process_killed (run acts (new_ReadableStream p)) \<and>
   \<not> stdout_destroyed (run acts (new_ReadableStream p))"
proof -
  have "\<not> process_killed (new_ReadableStream p)" "\<not> stdout_destroyed (new_ReadableStream p)"
    by (simp_all add: new_ReadableStream_def start_def controller_error_def fresh_def)
  then show ?thesis
    using run_process [of acts s] run_process [of acts "new_ReadableStream p"]
    by (simp add: rs_cancel_def source_cancel_def)
qed

theorem cancel_closes_stream_only_witness:
  "rs (run [Stdout (Data [0, 0, 0, 24])] (new_ReadableStream live_process)) = Readable \<and>
   rs (step Cancel (run [Stdout (Data [0, 0, 0, 24])] (new_ReadableStream live_process))) = Closed \<and>
   queue (step Cancel (run [Stdout (Data [0, 0, 0, 24])] (new_ReadableStream live_process))) = [] \<and>
   \<not> process_killed (run early_disconnect (new_ReadableStream live_process))"
proof -
  have h: "rs (run [Stdout (Data [0, 0, 0, 24])] (new_ReadableStream live_process)) = Readable"
    by (simp add: new_ReadableStream_def live_process_def start_def fresh_def
      emit_def controller_enqueue_def can_close_or_enqueue_def)
  from h cancel_closes_stream_only
    [of "run [Stdout (Data [0, 0, 0, 24])] (new_ReadableStream live_process)" early_disconnect live_process]
  show ?thesis by simp
qed

text \<open>A source whose \<^verbatim>\<open>cancel\<close> tears down would do what the route does not.\<close>

lemma cancel_with_teardown:
  "rs s = Readable \<Longrightarrow>
     process_killed (rs_cancel (Some teardown) s) \<and> stdout_destroyed (rs_cancel (Some teardown) s)"
  by (simp add: rs_cancel_def teardown_def)

subsection \<open>Relaying\<close>

lemma run_append: "run (as @ bs) s = run bs (run as s)"
  by (induction as arbitrary: s) simp_all

lemma flowing_start: "stdout_present p \<Longrightarrow> flowing (new_ReadableStream p)"
  by (simp add: flowing_def new_ReadableStream_def start_def fresh_def)

lemma start_empty:
  "stdout_present p \<Longrightarrow>
     delivered (new_ReadableStream p) = [] \<and> queue (new_ReadableStream p) = [] \<and>
     uncaught (new_ReadableStream p) = []"
  by (simp add: new_ReadableStream_def start_def fresh_def)

lemma flowing_read:
  "flowing s \<Longrightarrow>
     flowing (rs_read s) \<and>
     delivered (rs_read s) @ queue (rs_read s) = delivered s @ queue s \<and>
     uncaught (rs_read s) = uncaught s"
  by (simp add: flowing_def rs_read_def split: list.splits)

lemma flowing_data:
  "flowing s \<Longrightarrow>
     flowing (emit (Data c) s) \<and>
     delivered (emit (Data c) s) = delivered s \<and>
     queue (emit (Data c) s) = queue s @ [c] \<and>
     uncaught (emit (Data c) s) = uncaught s"
  by (simp add: flowing_def emit_def controller_enqueue_def can_close_or_enqueue_def)

lemma flowing_end:
  "flowing s \<Longrightarrow>
     draining (emit End s) \<and>
     delivered (emit End s) = delivered s \<and>
     queue (emit End s) = queue s \<and>
     uncaught (emit End s) = uncaught s"
  by (simp add: flowing_def draining_def emit_def controller_close_def can_close_or_enqueue_def)

lemma flowing_error:
  "flowing s \<Longrightarrow>
     rs (emit (Error e) s) = Errored (ErrorObj e) \<and>
     delivered (emit (Error e) s) = delivered s \<and>
     queue (emit (Error e) s) = [] \<and>
     uncaught (emit (Error e) s) = uncaught s"
  by (simp add: flowing_def emit_def controller_error_def)

lemma draining_read:
  "draining s \<Longrightarrow>
     draining (rs_read s) \<and>
     delivered (rs_read s) @ queue (rs_read s) = delivered s @ queue s \<and>
     uncaught (rs_read s) = uncaught s \<and>
     length (queue (rs_read s)) = length (queue s) - 1"
  by (auto simp: draining_def rs_read_def split: list.splits)

lemma flowing_run:
  "flowing s \<Longrightarrow> Cancel \<notin> set acts \<Longrightarrow> stdout_events acts = map Data cs \<Longrightarrow>
     flowing (run acts s) \<and>
     delivered (run acts s) @ queue (run acts s) = delivered s @ queue s @ cs \<and>
     uncaught (run acts s) = uncaught s"
proof (induction acts arbitrary: s cs)
  case Nil
  then show ?case by simp
next
  case (Cons a acts)
  show ?case
  proof (cases a)
    case (Stdout ev)
    with Cons.prems(3) obtain c cs' where ev: "ev = Data c" and cs: "cs = c # cs'"
      and rest: "stdout_events acts = map Data cs'"
      by (cases cs) auto
    from Cons.prems(1) have f: "flowing (emit (Data c) s)"
      using flowing_data by blast
    from Cons.IH [OF f _ rest] Cons.prems(2) flowing_data [OF Cons.prems(1), of c]
    show ?thesis by (simp add: Stdout ev cs)
  next
    case Read
    from Cons.prems(1) have f: "flowing (rs_read s)"
      using flowing_read by blast
    from Cons.prems(3) have rest: "stdout_events acts = map Data cs"
      by (simp add: Read)
    from Cons.IH [OF f _ rest] Cons.prems(2) flowing_read [OF Cons.prems(1)]
    show ?thesis by (simp add: Read)
  next
    case Cancel
    with Cons.prems(2) show ?thesis by simp
  qed
qed

lemma draining_run:
  "draining s \<Longrightarrow> Cancel \<notin> set acts \<Longrightarrow> stdout_events acts = [] \<Longrightarrow>
     draining (run acts s) \<and>
     delivered (run acts s) @ queue (run acts s) = delivered s @ queue s \<and>
     uncaught (run acts s) = uncaught s"
proof (induction acts arbitrary: s)
  case Nil
  then show ?case by simp
next
  case (Cons a acts)
  from Cons.prems have a: "a = Read" and rest: "stdout_events acts = []"
    and nc: "Cancel \<notin> set acts"
    by (cases a; simp)+
  from Cons.prems(1) have d: "draining (rs_read s)"
    using draining_read by blast
  from Cons.IH [OF d nc rest] draining_read [OF Cons.prems(1)]
  show ?case by (simp add: a)
qed

lemma ended_run:
  "flowing s \<Longrightarrow> Cancel \<notin> set acts \<Longrightarrow> stdout_events acts = map Data cs @ [End] \<Longrightarrow>
     draining (run acts s) \<and>
     delivered (run acts s) @ queue (run acts s) = delivered s @ queue s @ cs \<and>
     uncaught (run acts s) = uncaught s"
proof (induction acts arbitrary: s cs)
  case Nil
  then show ?case by simp
next
  case (Cons a acts)
  from Cons.prems(2) have nc: "Cancel \<notin> set acts" and na: "a \<noteq> Cancel"
    by auto
  show ?case
  proof (cases a)
    case (Stdout ev)
    show ?thesis
    proof (cases cs)
      case Nil
      with Cons.prems(3) Stdout have ev: "ev = End" and rest: "stdout_events acts = []"
        by simp_all
      from Cons.prems(1) have d: "draining (emit End s)"
        using flowing_end by blast
      from draining_run [OF d nc rest] flowing_end [OF Cons.prems(1)]
      show ?thesis by (simp add: Stdout ev Nil)
    next
      case (Cons c cs')
      with Cons.prems(3) Stdout have ev: "ev = Data c"
        and rest: "stdout_events acts = map Data cs' @ [End]"
        by simp_all
      from Cons.prems(1) have f: "flowing (emit (Data c) s)"
        using flowing_data by blast
      from Cons.IH [OF f nc rest] flowing_data [OF Cons.prems(1), of c]
      show ?thesis by (simp add: Stdout ev Cons)
    qed
  next
    case Read
    from Cons.prems(1) have f: "flowing (rs_read s)"
      using flowing_read by blast
    from Cons.prems(3) have rest: "stdout_events acts = map Data cs @ [End]"
      by (simp add: Read)
    from Cons.IH [OF f nc rest] flowing_read [OF Cons.prems(1)]
    show ?thesis by (simp add: Read)
  next
    case Cancel
    with na show ?thesis by simp
  qed
qed

lemma errored_run:
  "rs s = Errored x \<Longrightarrow> queue s = [] \<Longrightarrow> Cancel \<notin> set acts \<Longrightarrow> stdout_events acts = [] \<Longrightarrow>
     run acts s = s"
proof (induction acts arbitrary: s)
  case Nil
  then show ?case by simp
next
  case (Cons a acts)
  from Cons.prems have a: "a = Read" and rest: "stdout_events acts = []"
    and nc: "Cancel \<notin> set acts"
    by (cases a; simp)+
  from Cons.prems(2) have "rs_read s = s"
    by (simp add: rs_read_def)
  with Cons.IH [OF Cons.prems(1,2) nc rest] show ?case
    by (simp add: a)
qed

lemma failed_run:
  "flowing s \<Longrightarrow> Cancel \<notin> set acts \<Longrightarrow> stdout_events acts = map Data cs @ [Error e] \<Longrightarrow>
     rs (run acts s) = Errored (ErrorObj e) \<and>
     queue (run acts s) = [] \<and>
     prefix (delivered (run acts s)) (delivered s @ queue s @ cs) \<and>
     uncaught (run acts s) = uncaught s"
proof (induction acts arbitrary: s cs)
  case Nil
  then show ?case by simp
next
  case (Cons a acts)
  from Cons.prems(2) have nc: "Cancel \<notin> set acts" and na: "a \<noteq> Cancel"
    by auto
  show ?case
  proof (cases a)
    case (Stdout ev)
    show ?thesis
    proof (cases cs)
      case Nil
      with Cons.prems(3) Stdout have ev: "ev = Error e" and rest: "stdout_events acts = []"
        by simp_all
      from flowing_error [OF Cons.prems(1), of e]
      have "run acts (emit (Error e) s) = emit (Error e) s"
        using errored_run [OF _ _ nc rest] by blast
      with flowing_error [OF Cons.prems(1), of e]
      show ?thesis by (simp add: Stdout ev Nil)
    next
      case (Cons c cs')
      with Cons.prems(3) Stdout have ev: "ev = Data c"
        and rest: "stdout_events acts = map Data cs' @ [Error e]"
        by simp_all
      from Cons.prems(1) have f: "flowing (emit (Data c) s)"
        using flowing_data by blast
      from Cons.IH [OF f nc rest] flowing_data [OF Cons.prems(1), of c]
      show ?thesis by (simp add: Stdout ev Cons)
    qed
  next
    case Read
    from Cons.prems(1) have f: "flowing (rs_read s)"
      using flowing_read by blast
    from Cons.prems(3) have rest: "stdout_events acts = map Data cs @ [Error e]"
      by (simp add: Read)
    from flowing_read [OF Cons.prems(1)]
    have eq: "delivered (rs_read s) @ queue (rs_read s) @ cs = delivered s @ queue s @ cs"
      by (metis append.assoc)
    from flowing_read [OF Cons.prems(1)] have u: "uncaught (rs_read s) = uncaught s"
      by simp
    from Cons.IH [OF f nc rest] eq u
    show ?thesis by (simp add: Read)
  next
    case Cancel
    with na show ?thesis by simp
  qed
qed

lemma draining_reads:
  "draining s \<Longrightarrow> length (queue s) \<le> n \<Longrightarrow> queue (run (replicate n Read) s) = []"
proof (induction n arbitrary: s)
  case 0
  then show ?case by simp
next
  case (Suc n)
  from draining_read [OF Suc.prems(1)] Suc.prems(2)
  have "draining (rs_read s)" and "length (queue (rs_read s)) \<le> n"
    by simp_all
  from Suc.IH [OF this] show ?case by simp
qed

text \<open>
  Claim C5: take a process with an output channel and any schedule of channel events and
  reads in which the client does not cancel. While the channel has emitted chunks only, the
  chunks read followed by the chunks queued are the chunks emitted, in order and unchanged,
  and the stream is readable. Once the channel has ended after its chunks, the same holds,
  the stream is closed as soon as its queue is empty, and after as many further reads as
  there were chunks it is closed with exactly the emitted chunks delivered, so that the
  bytes delivered are their concatenation. When the channel reports an error after its
  chunks, the stream is in error with that error, having delivered some first part of the
  chunks. No listener throws in any of the three cases.
\<close>

theorem relay_faithful:
  assumes "u \<noteq> []" and "f \<noteq> []" and "exec u (download_opts f) = Inr p"
    and "stdout_present p" and "Cancel \<notin> set acts"
  shows
    "body (response (GET exec (Some u) (Some f))) = Stream (new_ReadableStream p) \<and>
     (stdout_events acts = map Data cs \<longrightarrow>
        rs (run acts (new_ReadableStream p)) = Readable \<and>
        delivered (run acts (new_ReadableStream p)) @ queue (run acts (new_ReadableStream p)) = cs \<and>
        uncaught (run acts (new_ReadableStream p)) = []) \<and>
     (stdout_events acts = map Data cs @ [End] \<longrightarrow>
        delivered (run acts (new_ReadableStream p)) @ queue (run acts (new_ReadableStream p)) = cs \<and>
        rs (run acts (new_ReadableStream p)) =
          (if queue (run acts (new_ReadableStream p)) = [] then Closed else Readable) \<and>
        uncaught (run acts (new_ReadableStream p)) = [] \<and>
        (\<forall>n \<ge> length cs.
           rs (run (acts @ replicate n Read) (new_ReadableStream p)) = Closed \<and>
           delivered (run (acts @ replicate n Read) (new_ReadableStream p)) = cs \<and>
           concat (delivered (run (acts @ replicate n Read) (new_ReadableStream p))) = concat cs)) \<and>
     (stdout_events acts = map Data cs @ [Error e] \<longrightarrow>
        rs (run acts (new_ReadableStream p)) = Errored (ErrorObj e) \<and>
        prefix (delivered (run acts (new_ReadableStream p))) cs \<and>
        uncaught (run acts (new_ReadableStream p)) = [])"
proof -
  let ?s0 = "new_ReadableStream p"
  from assms(4) have f: "flowing ?s0"
    by (rule flowing_start)
  from assms(4) have e: "delivered ?s0 = []" "queue ?s0 = []" "uncaught ?s0 = []"
    using start_empty by blast+
  note nc = assms(5)
  have G: "body (response (GET exec (Some u) (Some f))) = Stream ?s0"
    using get_stream [of u f exec p] assms(1,2,3) by simp
  have A: "rs (run acts ?s0) = Readable \<and> delivered (run acts ?s0) @ queue (run acts ?s0) = cs
      \<and> uncaught (run acts ?s0) = []"
    if "stdout_events acts = map Data cs"
    using flowing_run [OF f nc that] e by (simp add: flowing_def)
  have B: "draining (run acts ?s0) \<and> delivered (run acts ?s0) @ queue (run acts ?s0) = cs
      \<and> uncaught (run acts ?s0) = []"
    if "stdout_events acts = map Data cs @ [End]"
    using ended_run [OF f nc that] e by simp
  have B': "rs (run (acts @ replicate n Read) ?s0) = Closed \<and>
      delivered (run (acts @ replicate n Read) ?s0) = cs"
    if ev: "stdout_events acts = map Data cs @ [End]" and n: "length cs \<le> n" for n
  proof -
    let ?s = "run acts ?s0" and ?t = "run (replicate n Read) (run acts ?s0)"
    from B [OF ev] have d: "draining ?s" and c: "delivered ?s @ queue ?s = cs"
      by simp_all
    from c have "length (queue ?s) \<le> length cs"
      by (metis length_append le_add2)
    with n have "length (queue ?s) \<le> n"
      by simp
    from draining_reads [OF d this] have q: "queue ?t = []" .
    have "Cancel \<notin> set (replicate n Read)" "stdout_events (replicate n Read) = []"
      by (induction n) simp_all
    from draining_run [OF d this] q c have "draining ?t" "delivered ?t = cs"
      by simp_all
    with q show ?thesis
      by (simp add: run_append draining_def)
  qed
  have C: "rs (run acts ?s0) = Errored (ErrorObj e) \<and> prefix (delivered (run acts ?s0)) cs
      \<and> uncaught (run acts ?s0) = []"
    if "stdout_events acts = map Data cs @ [Error e]"
    using failed_run [OF f nc that] e by simp
  have B2: "rs (run acts ?s0) = (if queue (run acts ?s0) = [] then Closed else Readable)"
    if "stdout_events acts = map Data cs @ [End]"
    using B [OF that] by (simp add: draining_def)
  show ?thesis
    using G A B B2 B' C by simp
qed

theorem relay_faithful_witness:
  "live_exec ''https://youtu.be/abc123'' (download_opts ''137'') = Inr live_process \<and>
   stdout_present live_process \<and>
   Cancel \<notin> set complete_download \<and>
   stdout_events complete_download = map Data two_chunks @ [End] \<and>
   rs (run (complete_download @ replicate 2 Read) (new_ReadableStream live_process)) = Closed \<and>
   concat (delivered (run (complete_download @ replicate 2 Read) (new_ReadableStream live_process))) =
     [0, 0, 0, 24, 102, 116, 121, 112]"
proof -
  have h: "''https://youtu.be/abc123'' \<noteq> []" "''137'' \<noteq> []"
    "live_exec ''https://youtu.be/abc123'' (download_opts ''137'') = Inr live_process"
    "stdout_present live_process" "Cancel \<notin> set complete_download"
    by (simp_all add: live_exec_def live_process_def complete_download_def)
  have ev: "stdout_events complete_download = map Data two_chunks @ [End]"
    by (simp add: complete_download_def two_chunks_def)
  have n: "length two_chunks \<le> 2"
    by (simp add: two_chunks_def)
  from relay_faithful [of "''https://youtu.be/abc123''" "''137''" live_exec live_process
      complete_download two_chunks] h ev n
  have "rs (run (complete_download @ replicate 2 Read) (new_ReadableStream live_process)) = Closed"
    and "concat (delivered (run (complete_download @ replicate 2 Read)
      (new_ReadableStream live_process))) = concat two_chunks"
    by blast+
  with h ev show ?thesis
    by (simp add: two_chunks_def)
qed

end
